theory Spec2Isabelle
  imports Main
begin

section \<open>GitSavvy tags view: a shallow embedding of core/commands/tags.py\<close>

text \<open>
  The module renders the tags of a repository as a text report, records the offset
  ranges of the tag blocks in the process-wide dictionary \<open>view_section_ranges\<close>, and
  maps selected lines of the report back to tags for the delete, push and log
  commands. Python strings are modelled as \<open>string\<close>, offsets as \<open>nat\<close>, the
  dictionary as a map, raised exceptions as values of \<open>error\<close>, and the effects on the
  editor and on git as a trace of \<open>event\<close>s inside the state \<open>world\<close>.
\<close>

subsection \<open>Module constants\<close>

definition TAG_DELETE_MESSAGE :: string where
  "TAG_DELETE_MESSAGE = ''Tag deleted.''"

definition TAG_CREATE_PROMPT :: string where
  "TAG_CREATE_PROMPT = ''Enter tag:''"

definition TAG_CREATE_MESSAGE_PROMPT :: string where
  "TAG_CREATE_MESSAGE_PROMPT = ''Enter message:''"

definition START_PUSH_MESSAGE :: string where
  "START_PUSH_MESSAGE = ''Starting push...''"

definition END_PUSH_MESSAGE :: string where
  "END_PUSH_MESSAGE = ''Push complete.''"

text \<open>\<open>LOCAL_TEMPLATE.format(lines)\<close>\<close>

definition LOCAL_TEMPLATE :: "string \<Rightarrow> string" where
  "LOCAL_TEMPLATE local_lines = ''\<newline>  LOCAL:\<newline>'' @ local_lines @ ''\<newline>''"

text \<open>\<open>REMOTE_TEMPLATE.format(remote, lines)\<close>\<close>

definition REMOTE_TEMPLATE :: "string \<Rightarrow> string \<Rightarrow> string" where
  "REMOTE_TEMPLATE remote_name remote_lines =
     ''\<newline>  REMOTE ('' @ remote_name @ ''):\<newline>'' @ remote_lines @ ''\<newline>''"

text \<open>\<open>VIEW_HEADER_TEMPLATE.format(branch_status=..., repo_root=..., current_head=...)\<close>\<close>

definition VIEW_HEADER_TEMPLATE :: "string \<Rightarrow> string \<Rightarrow> string \<Rightarrow> string" where
  "VIEW_HEADER_TEMPLATE branch_status repo_root current_head =
     ''\<newline>  BRANCH:  '' @ branch_status @
     ''\<newline>  ROOT:    '' @ repo_root @
     ''\<newline>  HEAD:    '' @ current_head @ ''\<newline>''"

definition NO_TAGS_MESSAGE :: string where
  "NO_TAGS_MESSAGE = ''\<newline>  Your repository has no tags.\<newline>''"

definition LOADING_TAGS_MESSAGE :: string where
  "LOADING_TAGS_MESSAGE =
     ''\<newline>  Please stand by while fetching tags from remote(s).\<newline>''"

definition KEY_BINDINGS_MENU :: string where
  "KEY_BINDINGS_MENU =
     ''\<newline>  #############\<newline>  ## ACTIONS ##\<newline>  #############\<newline>'' @
     ''\<newline>  [c] create\<newline>  [d] delete\<newline>  [p] push to remote'' @
     ''\<newline>  [P] push all tags to remote\<newline>  [l] view commit\<newline>'' @
     ''\<newline>  ###########\<newline>  ## OTHER ##\<newline>  ###########\<newline>'' @
     ''\<newline>  [r] refresh status\<newline>\<newline>-\<newline>''"

subsection \<open>Python string operations\<close>

text \<open>
  The characters \<open>str.isspace\<close> accepts among the code points below 256: tab to carriage
  return, the four separators 0x1C to 0x1F, space, 0x85 and 0xA0.
\<close>

definition is_space :: "char \<Rightarrow> bool" where
  "is_space c =
     (let n = (of_char c :: nat)
      in (9 \<le> n \<and> n \<le> 13) \<or> (28 \<le> n \<and> n \<le> 32) \<or> n = 133 \<or> n = 160)"

text \<open>\<open>s.strip()\<close>: whitespace removed at both ends.\<close>

definition strip :: "string \<Rightarrow> string" where
  "strip s = rev (dropWhile is_space (rev (dropWhile is_space s)))"

text \<open>
  \<open>s.split()\<close>: the maximal runs of non-whitespace characters, in order. \<open>word\<close> is the
  run being read.
\<close>

fun split_loop :: "string \<Rightarrow> string \<Rightarrow> string list" where
  "split_loop word [] = (if word = [] then [] else [word])"
| "split_loop word (c # cs) =
     (if is_space c
      then (if word = [] then split_loop [] cs else word # split_loop [] cs)
      else split_loop (word @ [c]) cs)"

definition str_split :: "string \<Rightarrow> string list" where
  "str_split s = split_loop [] s"

text \<open>\<open>sep.join(xs)\<close>\<close>

fun join :: "string \<Rightarrow> string list \<Rightarrow> string" where
  "join sep [] = []"
| "join sep [x] = x"
| "join sep (x # y # ys) = x @ sep @ join sep (y # ys)"

subsection \<open>Tags, regions and the repository\<close>

text \<open>
  Modelled from the spec: what \<open>get_tags\<close>, a method of another module, returns. A
  listing is a sequence whose items are either a local tag (fields \<open>sha\<close> and \<open>tag\<close>)
  or the group of one remote (fields \<open>remote\<close> and \<open>entries\<close>);
  \<open>hasattr(item, "remote")\<close> tells them apart.
\<close>

record tag_entry =
  sha :: string
  tag :: string

record remote_group =
  remote :: string
  entries :: "tag_entry list"

datatype tag_item = LocalTag tag_entry | RemoteTags remote_group

text \<open>\<open>sublime.Region(a, b)\<close>, always built here with \<open>a \<le> b\<close>.\<close>

datatype region = Region (r_start: nat) (r_end: nat)

text \<open>
  What the repository answers to the queries of \<open>get_contents\<close> and \<open>run_async\<close>:
  \<open>get_branch_status()\<close>, \<open>repo_path\<close>, \<open>get_latest_commit_msg_for_head()\<close>,
  \<open>get_tags()\<close> and the keys of \<open>get_remotes()\<close>.
\<close>

record repo =
  branch_status :: string
  repo_path :: string
  latest_commit_msg :: string
  tags :: "tag_item list"
  remote_names :: "string list"

subsection \<open>GsTagsRefreshCommand.get_contents\<close>

text \<open>The loop of \<open>sort_tag_entries\<close>, appending to \<open>local\<close> or to \<open>remotes\<close>.\<close>

fun sort_loop ::
  "tag_item list \<Rightarrow> tag_entry list \<times> remote_group list \<Rightarrow> tag_entry list \<times> remote_group list"
where
  "sort_loop [] acc = acc"
| "sort_loop (LocalTag t # rest) (local, remotes) = sort_loop rest (local @ [t], remotes)"
| "sort_loop (RemoteTags g # rest) (local, remotes) = sort_loop rest (local, remotes @ [g])"

definition sort_tag_entries :: "tag_item list \<Rightarrow> tag_entry list \<times> remote_group list" where
  "sort_tag_entries tag_list = sort_loop tag_list ([], [])"

text \<open>\<open>"    {} {}".format(t.sha[:7], t.tag)\<close>\<close>

definition tag_line :: "tag_entry \<Rightarrow> string" where
  "tag_line t = ''    '' @ take 7 (sha t) @ '' '' @ tag t"

text \<open>
  The closure \<open>get_region\<close>: the region of \<open>new_text\<close> at the cursor, and the cursor
  moved past it.
\<close>

definition get_region :: "nat \<Rightarrow> string \<Rightarrow> region \<times> nat" where
  "get_region cursor new_text =
     (Region cursor (cursor + length new_text), cursor + length new_text)"

definition local_text_of :: "tag_entry list \<Rightarrow> string" where
  "local_text_of local = LOCAL_TEMPLATE (join ''\<newline>'' (map tag_line local))"

definition remote_text_of :: "remote_group \<Rightarrow> string" where
  "remote_text_of g = REMOTE_TEMPLATE (remote g) (join ''\<newline>'' (map tag_line (entries g)))"

text \<open>
  The loop over the remote groups; its state is \<open>(remote_region, cursor, view_text)\<close>.
  Each round assigns the one variable \<open>remote_region\<close>.
\<close>

fun remote_loop :: "remote_group list \<Rightarrow> region \<times> nat \<times> string \<Rightarrow> region \<times> nat \<times> string" where
  "remote_loop [] st = st"
| "remote_loop (g # gs) (remote_region, cursor, view_text) =
     (let remote_text = remote_text_of g;
          (reg, cursor') = get_region cursor remote_text
      in remote_loop gs (reg, cursor', view_text @ remote_text))"

definition header_of :: "repo \<Rightarrow> string" where
  "header_of r = VIEW_HEADER_TEMPLATE (branch_status r) (repo_path r) (latest_commit_msg r)"

text \<open>\<open>get_contents(loading=True)\<close>\<close>

definition get_contents_loading :: "repo \<Rightarrow> string" where
  "get_contents_loading r = header_of r @ LOADING_TAGS_MESSAGE @ KEY_BINDINGS_MENU"

text \<open>
  \<open>get_contents()\<close>: the report and the tuple \<open>(local_region, remote_region)\<close>, a tuple
  being a list here, so that \<open>[:3]\<close> is \<open>take 3\<close>.
\<close>

definition get_contents :: "repo \<Rightarrow> string \<times> region list" where
  "get_contents r =
     (let header = header_of r;
          cursor = length header;
          (local, remotes) = sort_tag_entries (tags r);
          (local_region, cursor1, view_text1) =
            (if local \<noteq> []
             then (let local_text = local_text_of local;
                       (reg, c) = get_region cursor local_text
                   in (reg, c, local_text))
             else (Region 0 0, cursor, []));
          (remote_region, cursor2, view_text2) =
            remote_loop remotes (Region 0 0, cursor1, view_text1);
          view_text = (if view_text2 = [] then NO_TAGS_MESSAGE else view_text2);
          contents = header @ view_text @ KEY_BINDINGS_MENU
      in (contents, [local_region, remote_region]))"

subsection \<open>Exceptions, effects and the state\<close>

datatype error = KeyError | IndexError | NameError | AttributeError | GitSavvyError

text \<open>
  What the commands do to the outside, in the order they do it: a call of \<open>self.git\<close>
  (arguments, \<open>stdin\<close>, \<open>show_panel\<close>), \<open>sublime.status_message\<close>,
  \<open>util.view.refresh_gitsavvy\<close>, \<open>show_quick_panel\<close>, \<open>show_input_panel\<close>, the
  command \<open>gs_replace_view_text\<close> and the query \<open>get_remotes\<close>.
\<close>

datatype event =
    Git "string list" "string option" bool
  | StatusMessage string
  | RefreshGitsavvy nat
  | ShowQuickPanel "string list"
  | ShowInputPanel string
  | ReplaceViewText nat string
  | GetRemotes

text \<open>
  The state: the module's dictionary \<open>view_section_ranges\<close>, keyed by \<open>view.id()\<close>, the
  text each view shows, and the trace of effects.
\<close>

record world =
  view_section_ranges :: "nat \<rightharpoonup> region list"
  view_text :: "nat \<Rightarrow> string"
  events :: "event list"

definition emit :: "event \<Rightarrow> world \<Rightarrow> world" where
  "emit e w = w\<lparr>events := events w @ [e]\<rparr>"

text \<open>
  Modelled from the spec: \<open>self.git\<close>, a method of another module. The repository
  client runs the command and either returns or fails, and a failure propagates to the
  caller as a fault. \<open>git_ok\<close> says which commands return.
\<close>

definition git ::
  "(string list \<Rightarrow> bool) \<Rightarrow> string list \<Rightarrow> string option \<Rightarrow> bool \<Rightarrow> world \<Rightarrow> error option \<times> world"
where
  "git git_ok args stdin show_panel w =
     ((if git_ok args then None else Some GitSavvyError), emit (Git args stdin show_panel) w)"

text \<open>\<open>xs[i]\<close> for \<open>i \<ge> 0\<close>, and for any integer \<open>i\<close> (negative indices count from the end).\<close>

definition index :: "'a list \<Rightarrow> nat \<Rightarrow> error + 'a" where
  "index xs i = (if i < length xs then Inr (xs ! i) else Inl IndexError)"

definition index_int :: "'a list \<Rightarrow> int \<Rightarrow> error + 'a" where
  "index_int xs i =
     (if 0 \<le> i then index xs (nat i)
      else if - int (length xs) \<le> i then Inr (xs ! nat (int (length xs) + i))
      else Inl IndexError)"

subsection \<open>Resolving the selection\<close>

text \<open>
  Modelled from the spec: \<open>util.view.get_lines_from_regions\<close>, a function of another
  module. For each selected position, find which line of the text it falls in, and keep
  only the lines whose full character span lies within one of the valid ranges. The
  selection is the sequence of selected offsets; the span of a line includes its line
  terminator, the line returned does not.
\<close>

definition line_start :: "string \<Rightarrow> nat \<Rightarrow> nat" where
  "line_start txt p =
     min p (length txt) - length (takeWhile (\<lambda>c. c \<noteq> CHR 0x0A) (rev (take p txt)))"

definition line_stop :: "string \<Rightarrow> nat \<Rightarrow> nat" where
  "line_stop txt p =
     min p (length txt) + length (takeWhile (\<lambda>c. c \<noteq> CHR 0x0A) (drop p txt))"

definition full_line :: "string \<Rightarrow> nat \<Rightarrow> region" where
  "full_line txt p =
     Region (line_start txt p)
       (if line_stop txt p < length txt then line_stop txt p + 1 else line_stop txt p)"

definition line_text :: "string \<Rightarrow> nat \<Rightarrow> string" where
  "line_text txt p = take (line_stop txt p - line_start txt p) (drop (line_start txt p) txt)"

definition region_within :: "region \<Rightarrow> region \<Rightarrow> bool" where
  "region_within outer inner = (r_start outer \<le> r_start inner \<and> r_end inner \<le> r_end outer)"

definition get_lines_from_regions :: "string \<Rightarrow> nat list \<Rightarrow> region list \<Rightarrow> string list" where
  "get_lines_from_regions txt sel valid_ranges =
     map (line_text txt)
       (filter (\<lambda>p. list_ex (\<lambda>outer. region_within outer (full_line txt p)) valid_ranges) sel)"

text \<open>\<open>tuple(line[4:].strip().split() for line in lines if line)\<close>\<close>

definition parse_lines :: "string list \<Rightarrow> string list list" where
  "parse_lines lines = map (\<lambda>line. str_split (strip (drop 4 line))) (filter (\<lambda>line. line \<noteq> []) lines)"

text \<open>
  The first statements of the \<open>run\<close> methods of the delete, push and log commands, the
  same text in each: the ranges of the view are looked up in \<open>view_section_ranges\<close> (a
  missing key raises), cut to the first three, and the selected lines are parsed.
\<close>

definition selected_items :: "nat \<Rightarrow> nat list \<Rightarrow> world \<Rightarrow> error + string list list" where
  "selected_items vid sel w =
     (case view_section_ranges w vid of
        None \<Rightarrow> Inl KeyError
      | Some ranges \<Rightarrow>
          Inr (parse_lines (get_lines_from_regions (view_text w vid) sel (take 3 ranges))))"

subsection \<open>GsTagsRefreshCommand\<close>

text \<open>
  Modelled from the spec: the command \<open>gs_replace_view_text\<close> of another module. The
  view shows the text given in place of the text it showed.
\<close>

definition replace_view_text :: "nat \<Rightarrow> string \<Rightarrow> world \<Rightarrow> world" where
  "replace_view_text vid txt w =
     emit (ReplaceViewText vid txt) (w\<lparr>view_text := (view_text w)(vid := txt)\<rparr>)"

text \<open>\<open>run_async\<close> shows the loading report; \<open>append_tags\<close> runs as a later task.\<close>

definition refresh_run_async :: "repo \<Rightarrow> nat \<Rightarrow> world \<Rightarrow> world" where
  "refresh_run_async r vid w = replace_view_text vid (get_contents_loading r) w"

definition append_tags :: "repo \<Rightarrow> nat \<Rightarrow> world \<Rightarrow> world" where
  "append_tags r vid w =
     (let (view_contents, ranges) = get_contents r;
          w1 = w\<lparr>view_section_ranges := (view_section_ranges w)(vid \<mapsto> ranges)\<rparr>
      in replace_view_text vid view_contents w1)"

subsection \<open>GsTagDeleteCommand\<close>

fun delete_loop :: "(string list \<Rightarrow> bool) \<Rightarrow> string list list \<Rightarrow> world \<Rightarrow> error option \<times> world" where
  "delete_loop git_ok [] w = (None, w)"
| "delete_loop git_ok (item # rest) w =
     (case index item 1 of
        Inl e \<Rightarrow> (Some e, w)
      | Inr name \<Rightarrow>
          (case git git_ok [''tag'', ''-d'', name] None False w of
             (Some e, w1) \<Rightarrow> (Some e, w1)
           | (None, w1) \<Rightarrow> delete_loop git_ok rest w1))"

definition delete_run :: "(string list \<Rightarrow> bool) \<Rightarrow> nat \<Rightarrow> nat list \<Rightarrow> world \<Rightarrow> error option \<times> world" where
  "delete_run git_ok vid sel w =
     (case selected_items vid sel w of
        Inl e \<Rightarrow> (Some e, w)
      | Inr items \<Rightarrow>
          if items \<noteq> []
          then (case delete_loop git_ok items w of
                  (Some e, w1) \<Rightarrow> (Some e, w1)
                | (None, w1) \<Rightarrow>
                    (None, emit (StatusMessage TAG_DELETE_MESSAGE) (emit (RefreshGitsavvy vid) w1)))
          else (None, w))"

subsection \<open>GsTagCreateCommand\<close>

text \<open>The answer to the message prompt: \<open>-1\<close> when the user cancelled, or the text.\<close>

datatype panel_input = Cancelled | Entered string

text \<open>\<open>self.tag_name\<close>, absent until \<open>on_entered_tag\<close> assigns it.\<close>

record create_cmd =
  tag_name :: "string option"

definition create_run_async :: "world \<Rightarrow> world" where
  "create_run_async w = emit (ShowInputPanel TAG_CREATE_PROMPT) w"

text \<open>\<open>None\<close>: the method returned at once, and no message prompt was opened.\<close>

definition on_entered_tag :: "string \<Rightarrow> create_cmd \<times> world \<Rightarrow> (create_cmd \<times> world) option" where
  "on_entered_tag name sw =
     (case sw of (self, w) \<Rightarrow>
        if name = [] then None
        else Some (self\<lparr>tag_name := Some name\<rparr>, emit (ShowInputPanel TAG_CREATE_MESSAGE_PROMPT) w))"

text \<open>
  \<open>default_message name\<close> stands for the setting \<open>default_tag_message\<close> formatted with
  \<open>tag_name=name\<close>.
\<close>

definition on_entered_message ::
  "(string list \<Rightarrow> bool) \<Rightarrow> (string \<Rightarrow> string) \<Rightarrow> panel_input \<Rightarrow> create_cmd \<times> world \<Rightarrow> error option \<times> world"
where
  "on_entered_message git_ok default_message message sw =
     (case sw of (self, w) \<Rightarrow>
        (case message of
           Cancelled \<Rightarrow> (None, w)
         | Entered m \<Rightarrow>
             (case tag_name self of
                None \<Rightarrow> (Some AttributeError, w)
              | Some name \<Rightarrow>
                  git git_ok [''tag'', name, ''-F'', ''-'']
                    (Some (if m = [] then default_message name else m)) False w)))"

text \<open>The whole flow: the name prompt, its answer, the message prompt, its answer.\<close>

definition create_flow ::
  "(string list \<Rightarrow> bool) \<Rightarrow> (string \<Rightarrow> string) \<Rightarrow> string \<Rightarrow> panel_input \<Rightarrow> world \<Rightarrow> error option \<times> world"
where
  "create_flow git_ok default_message name message w =
     (let w1 = create_run_async w
      in case on_entered_tag name (\<lparr>tag_name = None\<rparr>, w1) of
           None \<Rightarrow> (None, w1)
         | Some sw \<Rightarrow> on_entered_message git_ok default_message message sw)"

subsection \<open>GsTagPushCommand\<close>

text \<open>
  The attributes of the command object: \<open>self.items\<close> (absent until a run with
  \<open>push_all=False\<close> assigns it), \<open>self.push_all\<close> and \<open>self.remotes\<close>.
\<close>

record push_cmd =
  items :: "string list list option"
  push_all :: bool
  remotes :: "string list"

definition push_run :: "nat \<Rightarrow> nat list \<Rightarrow> bool \<Rightarrow> push_cmd \<times> world \<Rightarrow> error option \<times> push_cmd \<times> world" where
  "push_run vid sel push_all_arg sw =
     (case sw of (self, w) \<Rightarrow>
        if \<not> push_all_arg
        then (case selected_items vid sel w of
                Inl e \<Rightarrow> (Some e, self, w)
              | Inr its \<Rightarrow> (None, self\<lparr>items := Some its, push_all := push_all_arg\<rparr>, w))
        else (None, self\<lparr>push_all := push_all_arg\<rparr>, w))"

text \<open>
  \<open>run_async\<close>: the remotes are listed and offered in a quick panel. The branch for no
  remotes evaluates \<open>NO_REMOTES_MESSAGE\<close>, a name the module neither defines nor imports.
\<close>

definition push_run_async :: "repo \<Rightarrow> push_cmd \<times> world \<Rightarrow> error option \<times> push_cmd \<times> world" where
  "push_run_async r sw =
     (case sw of (self, w) \<Rightarrow>
        (let self1 = self\<lparr>remotes := remote_names r\<rparr>;
             w1 = emit GetRemotes w
         in if remotes self1 = []
            then (Some NameError, self1, w1)
            else (None, self1, emit (ShowQuickPanel (remotes self1)) w1)))"

text \<open>The loop building \<open>refs\<close>, one \<open>"refs/tags/" + item[1] + ":"\<close> per item.\<close>

fun refs_loop :: "string list list \<Rightarrow> string \<Rightarrow> error + string" where
  "refs_loop [] refs = Inr refs"
| "refs_loop (item # rest) refs =
     (case index item 1 of
        Inl e \<Rightarrow> Inl e
      | Inr name \<Rightarrow> refs_loop rest (refs @ ''refs/tags/'' @ name @ '':''))"

definition on_select_remote ::
  "(string list \<Rightarrow> bool) \<Rightarrow> int \<Rightarrow> push_cmd \<times> world \<Rightarrow> error option \<times> world"
where
  "on_select_remote git_ok remote_index sw =
     (case sw of (self, w) \<Rightarrow>
        if remote_index = - 1 then (None, w)
        else
          (case index_int (remotes self) remote_index of
             Inl e \<Rightarrow> (Some e, w)
           | Inr selected_remote \<Rightarrow>
               (let w1 = emit (StatusMessage START_PUSH_MESSAGE) w;
                    pushed =
                      (if push_all self
                       then git git_ok [''push'', selected_remote, ''--tags''] None False w1
                       else
                         (case items self of
                            None \<Rightarrow> (None, w1)
                          | Some its \<Rightarrow>
                              if its \<noteq> []
                              then (case refs_loop its [] of
                                      Inl e \<Rightarrow> (Some e, w1)
                                    | Inr refs \<Rightarrow>
                                        git git_ok [''push'', selected_remote, butlast refs]
                                          None False w1)
                              else (None, w1)))
                in case pushed of
                     (Some e, w2) \<Rightarrow> (Some e, w2)
                   | (None, w2) \<Rightarrow> (None, emit (StatusMessage END_PUSH_MESSAGE) w2))))"

text \<open>
  The whole flow: \<open>run\<close>, the task \<open>run_async\<close> it schedules, and, when the quick panel
  was shown, \<open>on_select_remote\<close> with the user's answer.
\<close>

definition push_flow ::
  "(string list \<Rightarrow> bool) \<Rightarrow> repo \<Rightarrow> nat \<Rightarrow> nat list \<Rightarrow> bool \<Rightarrow> int \<Rightarrow> push_cmd \<times> world \<Rightarrow> error option \<times> world"
where
  "push_flow git_ok r vid sel push_all_arg remote_index sw =
     (case push_run vid sel push_all_arg sw of
        (Some e, self1, w1) \<Rightarrow> (Some e, w1)
      | (None, self1, w1) \<Rightarrow>
          (case push_run_async r (self1, w1) of
             (Some e, self2, w2) \<Rightarrow> (Some e, w2)
           | (None, self2, w2) \<Rightarrow> on_select_remote git_ok remote_index (self2, w2)))"

subsection \<open>GsTagViewLogCommand\<close>

definition view_log_run :: "(string list \<Rightarrow> bool) \<Rightarrow> nat \<Rightarrow> nat list \<Rightarrow> world \<Rightarrow> error option \<times> world" where
  "view_log_run git_ok vid sel w =
     (case selected_items vid sel w of
        Inl e \<Rightarrow> (Some e, w)
      | Inr its \<Rightarrow>
          (case its of
             [] \<Rightarrow> (None, w)
           | item # rest \<Rightarrow>
               (case index item 0 of
                  Inl e \<Rightarrow> (Some e, w)
                | Inr h \<Rightarrow> git git_ok [''log'', ''-1'', ''--pretty=medium'', h] None True w)))"

subsection \<open>Predicates of the properties\<close>

text \<open>Two half-open ranges overlap when they share a position.\<close>

definition overlaps :: "region \<Rightarrow> region \<Rightarrow> bool" where
  "overlaps r1 r2 = (max (r_start r1) (r_start r2) < min (r_end r1) (r_end r2))"

fun pairwise_disjoint :: "region list \<Rightarrow> bool" where
  "pairwise_disjoint [] = True"
| "pairwise_disjoint (r # rs) = (list_all (\<lambda>s. \<not> overlaps r s) rs \<and> pairwise_disjoint rs)"

definition in_bounds :: "string \<Rightarrow> region \<Rightarrow> bool" where
  "in_bounds txt r = (r_start r \<le> r_end r \<and> r_end r \<le> length txt)"

text \<open>The calls of git in a trace, and the status messages in a trace.\<close>

fun git_calls :: "event list \<Rightarrow> string list list" where
  "git_calls [] = []"
| "git_calls (Git args stdin show_panel # es) = args # git_calls es"
| "git_calls (e # es) = git_calls es"

fun status_messages :: "event list \<Rightarrow> string list" where
  "status_messages [] = []"
| "status_messages (StatusMessage m # es) = m # status_messages es"
| "status_messages (e # es) = status_messages es"

text \<open>A token that \<open>split()\<close> returns unchanged: not empty, and free of whitespace.\<close>

definition token :: "string \<Rightarrow> bool" where
  "token s = (s \<noteq> [] \<and> list_all (\<lambda>c. \<not> is_space c) s)"

text \<open>The call of git that the delete command makes for an item: by its second token.\<close>

definition delete_call :: "string list \<Rightarrow> event" where
  "delete_call item = Git [''tag'', ''-d'', item ! 1] None False"

text \<open>
  The text of the local block and of the remote blocks as \<open>get_contents\<close> appends them.
\<close>

definition local_part :: "tag_entry list \<Rightarrow> string" where
  "local_part local = (if local \<noteq> [] then local_text_of local else [])"

definition remote_part :: "remote_group list \<Rightarrow> string" where
  "remote_part groups = concat (map remote_text_of groups)"

text \<open>
  The heading of a block, and the offset at which the line of entry \<open>i\<close> of a block
  begins, counted from the start of the block's range: after the heading and the lines
  of the entries before it.
\<close>

definition local_heading :: string where
  "local_heading = ''\<newline>  LOCAL:\<newline>''"

definition remote_heading :: "remote_group \<Rightarrow> string" where
  "remote_heading g = ''\<newline>  REMOTE ('' @ remote g @ ''):\<newline>''"

definition line_offset :: "region \<Rightarrow> string \<Rightarrow> tag_entry list \<Rightarrow> nat \<Rightarrow> nat" where
  "line_offset reg heading es i =
     r_start reg + length heading +
     length (concat (map (\<lambda>t. tag_line t @ ''\<newline>'') (take i es)))"

subsection \<open>An example repository and its view\<close>

text \<open>
  Three local tags and the tags of two remotes. \<open>ex_world\<close> is view 1 after one refresh;
  \<open>ex_reloading\<close> is the same view after the first task of a second refresh.
\<close>

definition ex_repo :: repo where
  "ex_repo =
     \<lparr>branch_status = ''b'', repo_path = ''/r'', latest_commit_msg = ''m'',
      tags =
        [LocalTag \<lparr>sha = ''abcdef1234567'', tag = ''v1.0''\<rparr>,
         LocalTag \<lparr>sha = ''1234567890abc'', tag = ''v1.1''\<rparr>,
         LocalTag \<lparr>sha = ''fedcba9876543'', tag = ''v2.0''\<rparr>,
         RemoteTags \<lparr>remote = ''origin'', entries = [\<lparr>sha = ''abcdef1234567'', tag = ''v1.0''\<rparr>]\<rparr>,
         RemoteTags \<lparr>remote = ''fork'', entries = [\<lparr>sha = ''1234567890abc'', tag = ''v1.1''\<rparr>]\<rparr>],
      remote_names = [''origin'', ''fork'']\<rparr>"

definition ex_world0 :: world where
  "ex_world0 = \<lparr>view_section_ranges = Map.empty, view_text = (\<lambda>vid. []), events = []\<rparr>"

definition ex_world :: world where
  "ex_world = (append_tags ex_repo 1 (refresh_run_async ex_repo 1 ex_world0))\<lparr>events := []\<rparr>"

definition ex_reloading :: world where
  "ex_reloading = (refresh_run_async ex_repo 1 ex_world)\<lparr>events := []\<rparr>"

text \<open>A repository whose one tag has a space in its name, and its view after a refresh.\<close>

definition ex_spaced_repo :: repo where
  "ex_spaced_repo =
     \<lparr>branch_status = ''b'', repo_path = ''/r'', latest_commit_msg = ''m'',
      tags = [LocalTag \<lparr>sha = ''0123456789abc'', tag = ''release candidate''\<rparr>],
      remote_names = [''origin'']\<rparr>"

definition ex_spaced_world :: world where
  "ex_spaced_world = (append_tags ex_spaced_repo 1 ex_world0)\<lparr>events := []\<rparr>"

definition ex_push_cmd :: push_cmd where
  "ex_push_cmd = \<lparr>items = None, push_all = False, remotes = []\<rparr>"

definition always_ok :: "string list \<Rightarrow> bool" where
  "always_ok args = True"

section \<open>Properties\<close>

subsection \<open>Effects leave the rest of the state alone\<close>

lemma events_emit: "events (emit e w) = events w @ [e]"
  by (simp add: emit_def)

lemma ranges_emit: "view_section_ranges (emit e w) = view_section_ranges w"
  by (simp add: emit_def)

lemma view_text_emit: "view_text (emit e w) = view_text w"
  by (simp add: emit_def)

lemma git_calls_append: "git_calls (xs @ ys) = git_calls xs @ git_calls ys"
  by (induction xs rule: git_calls.induct) simp_all

lemma status_messages_append:
  "status_messages (xs @ ys) = status_messages xs @ status_messages ys"
  by (induction xs rule: status_messages.induct) simp_all

lemma ranges_git:
  "view_section_ranges (snd (git git_ok args stdin panel w)) = view_section_ranges w"
  by (simp add: git_def ranges_emit)

lemma ranges_delete_loop:
  "view_section_ranges (snd (delete_loop git_ok its w)) = view_section_ranges w"
proof (induction its arbitrary: w)
  case Nil
  show ?case by simp
next
  case (Cons item rest)
  show ?case
  proof (cases "index item 1")
    case (Inl e)
    then show ?thesis by simp
  next
    case (Inr name)
    show ?thesis
    proof (cases "git_ok [''tag'', ''-d'', name]")
      case True
      with Inr Cons.IH [of "emit (Git [''tag'', ''-d'', name] None False) w"] show ?thesis
        by (simp add: git_def ranges_emit)
    next
      case False
      with Inr show ?thesis by (simp add: git_def ranges_emit)
    qed
  qed
qed

lemma ranges_on_select_remote:
  "view_section_ranges (snd (on_select_remote git_ok i (self, w))) = view_section_ranges w"
  by (simp add: on_select_remote_def Let_def git_def ranges_emit split: sum.splits option.splits)

lemma ranges_refresh_run_async:
  "view_section_ranges (refresh_run_async r vid w) = view_section_ranges w"
  by (simp add: refresh_run_async_def replace_view_text_def ranges_emit)

lemma ranges_append_tags:
  "view_section_ranges (append_tags r vid w) = (view_section_ranges w)(vid \<mapsto> snd (get_contents r))"
  by (simp add: append_tags_def replace_view_text_def ranges_emit split: prod.splits)

lemma snd_push_run: "snd (snd (push_run vid sel pa (self, w))) = w"
  by (simp add: push_run_def split: sum.splits)

lemma push_run_async_world:
  "snd (snd (push_run_async r (self, w))) =
     (if remote_names r = [] then emit GetRemotes w
      else emit (ShowQuickPanel (remote_names r)) (emit GetRemotes w))"
  by (simp add: push_run_async_def Let_def)

lemma on_select_remote_cancel: "on_select_remote git_ok (- 1) (self, w) = (None, w)"
  by (simp add: on_select_remote_def)

lemma push_flow_cancel_world:
  "snd (push_flow git_ok r vid sel pa (- 1) (self, w)) = w
   \<or> snd (push_flow git_ok r vid sel pa (- 1) (self, w)) = emit GetRemotes w
   \<or> snd (push_flow git_ok r vid sel pa (- 1) (self, w)) =
        emit (ShowQuickPanel (remote_names r)) (emit GetRemotes w)"
proof -
  obtain e1 s1 w1 where a: "push_run vid sel pa (self, w) = (e1, s1, w1)"
    by (cases "push_run vid sel pa (self, w)")
  have w1: "w1 = w" using snd_push_run [of vid sel pa self w] a by simp
  obtain e2 s2 w2 where b: "push_run_async r (s1, w1) = (e2, s2, w2)"
    by (cases "push_run_async r (s1, w1)")
  have w2: "w2 = (if remote_names r = [] then emit GetRemotes w
      else emit (ShowQuickPanel (remote_names r)) (emit GetRemotes w))"
    using push_run_async_world [of r s1 w1] b w1 by simp
  show ?thesis
    using a b w1 w2
    by (cases e1; cases e2) (simp_all add: push_flow_def on_select_remote_cancel)
qed

lemma push_flow_cancel_git:
  "git_calls (events (snd (push_flow git_ok r vid sel pa (- 1) (self, w)))) = git_calls (events w)"
  using push_flow_cancel_world [of git_ok r vid sel pa self w]
  by (auto simp: events_emit git_calls_append)

lemma push_flow_cancel_status:
  "status_messages (events (snd (push_flow git_ok r vid sel pa (- 1) (self, w)))) =
     status_messages (events w)"
  using push_flow_cancel_world [of git_ok r vid sel pa self w]
  by (auto simp: events_emit status_messages_append)

lemma ranges_push_flow:
  "view_section_ranges (snd (push_flow git_ok r vid sel pa i (self, w))) = view_section_ranges w"
proof -
  obtain e1 s1 w1 where a: "push_run vid sel pa (self, w) = (e1, s1, w1)"
    by (cases "push_run vid sel pa (self, w)")
  have w1: "w1 = w" using snd_push_run [of vid sel pa self w] a by simp
  obtain e2 s2 w2 where b: "push_run_async r (s1, w1) = (e2, s2, w2)"
    by (cases "push_run_async r (s1, w1)")
  have w2: "view_section_ranges w2 = view_section_ranges w"
    using push_run_async_world [of r s1 w1] b w1 by (simp add: ranges_emit split: if_splits)
  show ?thesis
    using a b w1 w2 ranges_on_select_remote [of git_ok i s2 w2]
    by (cases e1; cases e2) (simp_all add: push_flow_def)
qed

lemma ranges_create_flow:
  "view_section_ranges (snd (create_flow git_ok dm name message w)) = view_section_ranges w"
  by (cases "name = []"; cases message)
    (simp_all add: create_flow_def create_run_async_def on_entered_tag_def
      on_entered_message_def ranges_emit ranges_git)

subsection \<open>Cancelled prompts\<close>

text \<open>
  Claim C9. Once a prompt of an interactive flow is answered with the cancel signal (or the
  tag-name prompt with empty input), the flow issues no git command and ends silently:
  \<open>CreateTag\<close> with an empty name only shows the name prompt; \<open>CreateTag\<close> with a
  cancelled message prompt only shows the two prompts and returns without a call of git;
  \<open>on_select_remote\<close> with the answer \<open>-1\<close> returns at once and changes nothing, so a
  push flow whose remote choice is cancelled adds no git call and no status message.
\<close>

theorem cancelled_prompt_issues_no_git_call:
  "create_flow git_ok dm [] message w = (None, emit (ShowInputPanel TAG_CREATE_PROMPT) w)
   \<and> create_flow git_ok dm (c # cs) Cancelled w =
       (None, emit (ShowInputPanel TAG_CREATE_MESSAGE_PROMPT)
                (emit (ShowInputPanel TAG_CREATE_PROMPT) w))
   \<and> on_entered_message git_ok dm Cancelled (cmd, w) = (None, w)
   \<and> on_select_remote git_ok (- 1) (self, w) = (None, w)
   \<and> git_calls (events (snd (push_flow git_ok r vid sel pa (- 1) (self, w)))) =
       git_calls (events w)
   \<and> status_messages (events (snd (push_flow git_ok r vid sel pa (- 1) (self, w)))) =
       status_messages (events w)"
  by (simp add: create_flow_def create_run_async_def on_entered_tag_def on_entered_message_def
      on_select_remote_cancel push_flow_cancel_git push_flow_cancel_status)

theorem cancelled_prompt_witness:
  "git_calls (events (snd (create_flow always_ok (\<lambda>name. ''Tag '' @ name) ''v2.0'' Cancelled ex_world0))) = []
   \<and> git_calls (events (snd (push_flow always_ok ex_repo 1 [] True (- 1) (ex_push_cmd, ex_world0)))) = []"
  using cancelled_prompt_issues_no_git_call
    [of always_ok "\<lambda>name. ''Tag '' @ name" Cancelled ex_world0 "CHR ''v''" "''2.0''"
        "\<lparr>tag_name = None\<rparr>" ex_push_cmd ex_repo 1 "[]" True]
  by (simp add: ex_world0_def events_emit)

subsection \<open>Views that were never rendered\<close>

text \<open>
  Claim C10. The commands that work on the selection (delete, push with \<open>push_all=False\<close>,
  log) look the view up in \<open>view_section_ranges\<close> without a guard. The dictionary gets
  the key of a view only in \<open>append_tags\<close>, when a full render completes: the loading
  render, the delete, log, push and create flows all leave the dictionary as it is. So on a
  view that was never fully rendered each of the three commands raises \<open>KeyError\<close>, with
  no effect, instead of resolving to an empty selection.
\<close>

theorem unrendered_view_raises_key_error:
  assumes "view_section_ranges w vid = None"
  shows "delete_run git_ok vid sel w = (Some KeyError, w)
       \<and> push_run vid sel False (self, w) = (Some KeyError, self, w)
       \<and> view_log_run git_ok vid sel w = (Some KeyError, w)
       \<and> view_section_ranges (refresh_run_async r vid w) vid = None
       \<and> view_section_ranges (snd (push_flow git_ok r vid sel pa i (self, w))) vid = None
       \<and> view_section_ranges (snd (create_flow git_ok dm name message w)) vid = None
       \<and> view_section_ranges (append_tags r vid w) vid = Some (snd (get_contents r))"
  using assms
  by (simp add: delete_run_def push_run_def view_log_run_def selected_items_def
      ranges_refresh_run_async ranges_append_tags ranges_push_flow ranges_create_flow)

theorem unrendered_view_witness:
  "view_section_ranges ex_world0 1 = None
   \<and> delete_run always_ok 1 [45] ex_world0 = (Some KeyError, ex_world0)
   \<and> push_run 1 [45] False (ex_push_cmd, ex_world0) = (Some KeyError, ex_push_cmd, ex_world0)
   \<and> view_log_run always_ok 1 [45] ex_world0 = (Some KeyError, ex_world0)"
proof -
  have h: "view_section_ranges ex_world0 1 = None" by (simp add: ex_world0_def)
  show ?thesis
    using h unrendered_view_raises_key_error [OF h, of always_ok "[45]" ex_push_cmd]
    by simp
qed

subsection \<open>Deleting the selected tags\<close>

lemma emit_as_update: "emit e w = w\<lparr>events := events w @ [e]\<rparr>"
  by (simp add: emit_def)

lemma delete_loop_all_ok:
  assumes "\<forall>item \<in> set its. 1 < length item \<and> git_ok [''tag'', ''-d'', item ! 1]"
  shows "delete_loop git_ok its w = (None, w\<lparr>events := events w @ map delete_call its\<rparr>)"
  using assms
proof (induction its arbitrary: w)
  case Nil
  show ?case by simp
next
  case (Cons item rest)
  have item: "1 < length item" "git_ok [''tag'', ''-d'', item ! 1]"
    using Cons.prems by simp_all
  have rest: "\<forall>x \<in> set rest. 1 < length x \<and> git_ok [''tag'', ''-d'', x ! 1]"
    using Cons.prems by simp
  show ?case
    using item Cons.IH [OF rest, of "emit (delete_call item) w"]
    by (simp add: index_def git_def emit_as_update delete_call_def)
qed

text \<open>
  Claim C3, as the code has it. When the selection resolves to \<open>its\<close>, every item has a
  second token and every call of git returns, the delete command issues one
  \<open>git tag -d name\<close> per item, in order, with the item's second token (the name, never
  the hash), then triggers the refresh and shows the fixed message \<open>Tag deleted.\<close>; the
  message carries no count. When the selection resolves to nothing, the state is
  unchanged: no call, no refresh, no message.
\<close>

theorem delete_run_calls:
  assumes "selected_items vid sel w = Inr its"
    and "\<forall>item \<in> set its. 1 < length item \<and> git_ok [''tag'', ''-d'', item ! 1]"
  shows "delete_run git_ok vid sel w =
           (None,
            if its = [] then w
            else w\<lparr>events := events w @ map delete_call its @
                     [RefreshGitsavvy vid, StatusMessage TAG_DELETE_MESSAGE]\<rparr>)"
  using assms(1) delete_loop_all_ok [OF assms(2), of w]
  by (simp add: delete_run_def emit_as_update)

theorem delete_run_calls_witness:
  "selected_items 1 [55, 70] ex_world = Inr [[''abcdef1'', ''v1.0''], [''1234567'', ''v1.1'']]
   \<and> delete_run always_ok 1 [55, 70] ex_world =
       (None, ex_world\<lparr>events := events ex_world @
          [Git [''tag'', ''-d'', ''v1.0''] None False, Git [''tag'', ''-d'', ''v1.1''] None False,
           RefreshGitsavvy 1, StatusMessage TAG_DELETE_MESSAGE]\<rparr>)"
proof -
  have h1: "selected_items 1 [55, 70] ex_world =
      Inr [[''abcdef1'', ''v1.0''], [''1234567'', ''v1.1'']]"
    by code_simp
  have h2: "\<forall>item \<in> set [[''abcdef1'', ''v1.0''], [''1234567'', ''v1.1'']].
      1 < length item \<and> always_ok [''tag'', ''-d'', item ! 1]"
    by (simp add: always_ok_def)
  show ?thesis
    using h1 delete_run_calls [OF h1 h2] by (simp add: delete_call_def)
qed

text \<open>
  The claim as stated fails where it says that the success count is reported: deleting one
  tag and deleting two tags show the same message.
\<close>

theorem delete_reports_no_count:
  "length (git_calls (events (snd (delete_run always_ok 1 [55] ex_world)))) = 1
   \<and> length (git_calls (events (snd (delete_run always_ok 1 [55, 70] ex_world)))) = 2
   \<and> status_messages (events (snd (delete_run always_ok 1 [55] ex_world))) = [''Tag deleted.'']
   \<and> status_messages (events (snd (delete_run always_ok 1 [55, 70] ex_world))) = [''Tag deleted.'']"
  by code_simp

subsection \<open>Parsing the selected lines\<close>

lemma split_loop_run:
  "list_all (\<lambda>c. \<not> is_space c) u \<Longrightarrow> split_loop word (u @ rest) = split_loop (word @ u) rest"
  by (induction u arbitrary: word) simp_all

lemma space_is_space: "is_space CHR '' ''"
  by (simp add: is_space_def)

lemma split_two_tokens:
  assumes "token h" "token n"
  shows "str_split (h @ '' '' @ n) = [h, n]"
proof -
  have h: "list_all (\<lambda>c. \<not> is_space c) h" "h \<noteq> []" using assms(1) by (simp_all add: token_def)
  have n: "list_all (\<lambda>c. \<not> is_space c) n" "n \<noteq> []" using assms(2) by (simp_all add: token_def)
  have "split_loop [] (h @ '' '' @ n) = split_loop h ('' '' @ n)"
    using split_loop_run [OF h(1), of "[]" "'' '' @ n"] by simp
  also have "\<dots> = h # split_loop [] n"
    using h(2) by (simp add: space_is_space)
  also have "split_loop [] n = split_loop n []"
    using split_loop_run [OF n(1), of "[]" "[]"] by simp
  finally show ?thesis using n(2) by (simp add: str_split_def)
qed

lemma dropWhile_token_start:
  "s \<noteq> [] \<Longrightarrow> \<not> is_space (hd s) \<Longrightarrow> dropWhile is_space s = s"
  by (cases s) simp_all

lemma strip_two_tokens:
  assumes "token h" "token n"
  shows "strip (h @ '' '' @ n) = h @ '' '' @ n"
proof -
  have h: "h \<noteq> []" "\<not> is_space (hd h)"
    using assms(1) by (cases h; simp add: token_def)+
  have n: "n \<noteq> []" "\<not> is_space (last n)"
    using assms(2) by (cases n rule: rev_cases; simp add: token_def)+
  have a: "dropWhile is_space (h @ '' '' @ n) = h @ '' '' @ n"
    using h by (intro dropWhile_token_start) simp_all
  have b: "dropWhile is_space (rev (h @ '' '' @ n)) = rev (h @ '' '' @ n)"
    using n by (intro dropWhile_token_start) (simp_all add: hd_rev)
  show ?thesis by (simp only: strip_def a b rev_rev_ident)
qed

lemma parse_two_tokens:
  assumes "token h" "token n"
  shows "str_split (strip (h @ '' '' @ n)) = [h, n]"
  using assms by (simp only: strip_two_tokens split_two_tokens)


subsection \<open>Pushing with an empty selection\<close>

text \<open>
  Claim C4, as the code has it. When \<open>push_all\<close> is false and the selection resolves to
  nothing, the push flow issues no call of git, whatever the user answers. It is not the
  no-op that the delete command is: the remotes are listed, and the remote prompt is shown
  when there is a remote.
\<close>

theorem push_empty_selection_no_git_call:
  assumes "selected_items vid sel w = Inr []"
  shows "git_calls (events (snd (push_flow git_ok r vid sel False i (self, w)))) = git_calls (events w)
       \<and> take (Suc (Suc (length (events w))))
             (events (snd (push_flow git_ok r vid sel False i (self, w)))) =
           events w @ GetRemotes #
             (if remote_names r = [] then [] else [ShowQuickPanel (remote_names r)])"
  using assms
  by (simp add: push_flow_def push_run_def push_run_async_def Let_def on_select_remote_def
      events_emit git_calls_append split: sum.splits)

theorem push_empty_selection_witness:
  "selected_items 1 [] ex_world = Inr []
   \<and> git_calls (events (snd (push_flow always_ok ex_repo 1 [] False 0 (ex_push_cmd, ex_world)))) = []
   \<and> take 2 (events (snd (push_flow always_ok ex_repo 1 [] False 0 (ex_push_cmd, ex_world)))) =
       [GetRemotes, ShowQuickPanel [''origin'', ''fork'']]"
proof -
  have h: "selected_items 1 [] ex_world = Inr []" by code_simp
  have e: "events ex_world = []" by (simp add: ex_world_def)
  have r: "remote_names ex_repo = [''origin'', ''fork'']" by (simp add: ex_repo_def)
  show ?thesis
    using h push_empty_selection_no_git_call [OF h, of always_ok ex_repo 0 ex_push_cmd]
    by (simp add: e r numeral_2_eq_2)
qed

text \<open>
  The claim as stated fails: with an empty selection the delete command changes nothing,
  while the push flow shows the remote prompt and, once a remote is chosen, both status
  messages.
\<close>

theorem push_empty_selection_prompts:
  "selected_items 1 [] ex_world = Inr []
   \<and> events (snd (delete_run always_ok 1 [] ex_world)) = []
   \<and> events (snd (push_flow always_ok ex_repo 1 [] False 0 (ex_push_cmd, ex_world))) =
       [GetRemotes, ShowQuickPanel [''origin'', ''fork''],
        StatusMessage ''Starting push...'', StatusMessage ''Push complete.'']"
  by code_simp

subsection \<open>Refreshing\<close>

text \<open>
  Claim C8, as the code has it. When \<open>append_tags\<close> has run, the text the view shows and
  the ranges stored for it come from one and the same render. The task before it,
  \<open>run_async\<close>, replaces the text by the loading report and leaves the stored ranges as
  they are; nothing marks them as stale.
\<close>

theorem append_tags_swaps_text_and_ranges:
  "view_text (append_tags r vid w) vid = fst (get_contents r)
   \<and> view_section_ranges (append_tags r vid w) vid = Some (snd (get_contents r))
   \<and> view_text (refresh_run_async r vid w) vid = get_contents_loading r
   \<and> view_section_ranges (refresh_run_async r vid w) = view_section_ranges w"
  by (simp add: append_tags_def refresh_run_async_def replace_view_text_def emit_def
      split: prod.splits)

theorem append_tags_swaps_witness:
  "view_text (append_tags ex_repo 1 ex_world0) 1 = fst (get_contents ex_repo)
   \<and> view_section_ranges (append_tags ex_repo 1 ex_world0) 1 = Some [Region 41 102, Region 139 174]"
proof -
  have "snd (get_contents ex_repo) = [Region 41 102, Region 139 174]" by code_simp
  then show ?thesis
    using append_tags_swaps_text_and_ranges [of ex_repo 1 ex_world0] by simp
qed

text \<open>
  The claim as stated fails between the two tasks of a refresh: the view shows the loading
  report, the stored ranges are those of the report shown before, and a selection in the
  line of the loading message is resolved with them, so that the delete command runs
  \<open>git tag -d stand\<close>.
\<close>

theorem reloading_view_resolves_with_old_ranges:
  "view_text ex_reloading 1 = get_contents_loading ex_repo
   \<and> view_text ex_reloading 1 \<noteq> fst (get_contents ex_repo)
   \<and> view_section_ranges ex_reloading 1 = Some (snd (get_contents ex_repo))
   \<and> line_text (view_text ex_reloading 1) 45 =
       ''  Please stand by while fetching tags from remote(s).''
   \<and> events (snd (delete_run always_ok 1 [45] ex_reloading)) =
       [Git [''tag'', ''-d'', ''stand''] None False, RefreshGitsavvy 1,
        StatusMessage ''Tag deleted.'']"
  by code_simp

subsection \<open>Pushing the selected tags\<close>

text \<open>
  Claim C1, evaluated. With one tag selected, the push flow calls
  \<open>git push origin refs/tags/v1.0\<close>. With two tags selected it makes one call whose
  single ref argument is \<open>refs/tags/v1.0:refs/tags/v1.1\<close>, the two names joined by a
  colon, and not the two refs \<open>refs/tags/v1.0\<close> and \<open>refs/tags/v1.1\<close>.
\<close>

theorem push_two_tags_joins_refs_by_colon:
  "git_calls (events (snd (push_flow always_ok ex_repo 1 [55] False 0 (ex_push_cmd, ex_world)))) =
     [[''push'', ''origin'', ''refs/tags/v1.0'']]
   \<and> selected_items 1 [55, 70] ex_world = Inr [[''abcdef1'', ''v1.0''], [''1234567'', ''v1.1'']]
   \<and> git_calls (events (snd (push_flow always_ok ex_repo 1 [55, 70] False 0 (ex_push_cmd, ex_world)))) =
     [[''push'', ''origin'', ''refs/tags/v1.0:refs/tags/v1.1'']]
   \<and> git_calls (events (snd (push_flow always_ok ex_repo 1 [55, 70] False 0 (ex_push_cmd, ex_world)))) \<noteq>
     [[''push'', ''origin'', ''refs/tags/v1.0'', ''refs/tags/v1.1'']]"
  by code_simp

subsection \<open>The recorded ranges\<close>

text \<open>
  Claim C5, evaluated. The example repository has local tags and two remotes, so three
  blocks are emitted: the local block at 41 to 102, the block of \<open>origin\<close> at 102 to 139
  and the block of \<open>fork\<close> at 139 to 174. Two ranges are recorded, the local one and the
  one of \<open>fork\<close>; the block of \<open>origin\<close> has none, and a selection in its tag line
  resolves to nothing.
\<close>

theorem two_remotes_record_one_remote_range:
  "snd (get_contents ex_repo) = [Region 41 102, Region 139 174]
   \<and> take 37 (drop 102 (fst (get_contents ex_repo))) =
       remote_text_of \<lparr>remote = ''origin'', entries = [\<lparr>sha = ''abcdef1234567'', tag = ''v1.0''\<rparr>]\<rparr>
   \<and> take 35 (drop 139 (fst (get_contents ex_repo))) =
       remote_text_of \<lparr>remote = ''fork'', entries = [\<lparr>sha = ''1234567890abc'', tag = ''v1.1''\<rparr>]\<rparr>
   \<and> line_text (view_text ex_world 1) 125 = ''    abcdef1 v1.0''
   \<and> selected_items 1 [125] ex_world = Inr []"
  by code_simp

subsection \<open>What \<open>get_contents\<close> returns\<close>

lemma remote_loop_eq:
  "remote_loop gs (rr, c, vt) =
     ((if gs = [] then rr
       else Region (c + length (concat (map remote_text_of (butlast gs))))
                   (c + length (concat (map remote_text_of gs)))),
      c + length (concat (map remote_text_of gs)),
      vt @ concat (map remote_text_of gs))"
proof (induction gs arbitrary: rr c vt)
  case Nil
  show ?case by simp
next
  case (Cons g gs)
  show ?case
    by (cases "gs = []") (simp_all add: Cons.IH get_region_def Let_def)
qed

lemma get_contents_eq:
  assumes "sort_tag_entries (tags r) = (local, groups)"
  shows "get_contents r =
    (header_of r @
       (if local_part local @ remote_part groups = [] then NO_TAGS_MESSAGE
        else local_part local @ remote_part groups) @ KEY_BINDINGS_MENU,
     [if local \<noteq> [] then Region (length (header_of r))
                               (length (header_of r) + length (local_part local))
      else Region 0 0,
      if groups = [] then Region 0 0
      else Region (length (header_of r) + length (local_part local) +
                     length (remote_part (butlast groups)))
                  (length (header_of r) + length (local_part local) +
                     length (remote_part groups))])"
  using assms
  by (cases "local = []")
    (simp_all add: get_contents_def Let_def remote_loop_eq get_region_def local_part_def
      remote_part_def)

lemma remote_part_butlast_le:
  "length (remote_part (butlast gs)) \<le> length (remote_part gs)"
proof (cases "gs = []")
  case True
  then show ?thesis by simp
next
  case False
  then have "gs = butlast gs @ [last gs]" by simp
  then have "remote_part gs = remote_part (butlast gs) @ remote_text_of (last gs)"
    by (metis (no_types) remote_part_def concat_append map_append concat.simps(1,2) list.map append_Nil2)
  then show ?thesis by simp
qed

text \<open>
  Claim C7. For every non-empty tag list, the section ranges that a full render returns
  do not overlap one another, and each lies within the bounds of the report returned
  with them.
\<close>

theorem section_ranges_disjoint_and_in_bounds:
  assumes "tags r \<noteq> []"
  shows "pairwise_disjoint (snd (get_contents r))
       \<and> list_all (in_bounds (fst (get_contents r))) (snd (get_contents r))"
proof -
  obtain local groups where s: "sort_tag_entries (tags r) = (local, groups)"
    by (cases "sort_tag_entries (tags r)")
  note eq = get_contents_eq [OF s]
  let ?vt = "local_part local @ remote_part groups"
  have len: "length ?vt \<le> length (if ?vt = [] then NO_TAGS_MESSAGE else ?vt)" by simp
  have bl: "length (remote_part (butlast groups)) \<le> length (remote_part groups)"
    by (rule remote_part_butlast_le)
  have d: "pairwise_disjoint (snd (get_contents r))"
    by (simp add: eq overlaps_def)
  have b: "list_all (in_bounds (fst (get_contents r))) (snd (get_contents r))"
    using len bl by (simp add: eq in_bounds_def)
  from d b show ?thesis by simp
qed

theorem section_ranges_witness:
  "tags ex_repo \<noteq> []
   \<and> snd (get_contents ex_repo) = [Region 41 102, Region 139 174]
   \<and> pairwise_disjoint [Region 41 102, Region 139 174]
   \<and> list_all (in_bounds (fst (get_contents ex_repo))) [Region 41 102, Region 139 174]"
proof -
  have h: "tags ex_repo \<noteq> []" by (simp add: ex_repo_def)
  have e: "snd (get_contents ex_repo) = [Region 41 102, Region 139 174]" by code_simp
  show ?thesis
    using h e section_ranges_disjoint_and_in_bounds [OF h] by simp
qed

subsection \<open>From a rendered line back to its tag\<close>

lemma line_start_at:
  assumes decomp: "txt = P @ L @ CHR 0x0A # Z"
    and P: "P \<noteq> []" "last P = CHR 0x0A"
    and L: "CHR 0x0A \<notin> set L"
    and p: "length P \<le> p" "p \<le> length P + length L"
  shows "line_start txt p = length P"
proof -
  define k where "k = p - length P"
  have k: "p = length P + k" "k \<le> length L" using p by (simp_all add: k_def)
  have tk: "take p txt = P @ take k L" using k by (simp add: decomp)
  have revP: "rev P = CHR 0x0A # rev (butlast P)"
    using P by (metis append_butlast_last_id rev.simps(2) rev_append rev_rev_ident append_Cons append_Nil)
  have all: "\<And>x. x \<in> set (rev (take k L)) \<Longrightarrow> x \<noteq> CHR 0x0A"
    using L by (auto dest: in_set_takeD)
  have "takeWhile (\<lambda>c. c \<noteq> CHR 0x0A) (rev (take p txt)) =
        rev (take k L) @ takeWhile (\<lambda>c. c \<noteq> CHR 0x0A) (rev P)"
    unfolding tk rev_append using all by (rule takeWhile_append2)
  also have "takeWhile (\<lambda>c. c \<noteq> CHR 0x0A) (rev P) = []" by (simp add: revP)
  finally have "length (takeWhile (\<lambda>c. c \<noteq> CHR 0x0A) (rev (take p txt))) = k"
    using k by simp
  moreover have "min p (length txt) = p" using p by (simp add: decomp)
  ultimately show ?thesis using k by (simp add: line_start_def)
qed

lemma line_stop_at:
  assumes decomp: "txt = P @ L @ CHR 0x0A # Z"
    and L: "CHR 0x0A \<notin> set L"
    and p: "length P \<le> p" "p \<le> length P + length L"
  shows "line_stop txt p = length P + length L"
proof -
  define k where "k = p - length P"
  have k: "p = length P + k" "k \<le> length L" using p by (simp_all add: k_def)
  have dr: "drop p txt = drop k L @ CHR 0x0A # Z" using k by (simp add: decomp)
  have all: "\<And>x. x \<in> set (drop k L) \<Longrightarrow> x \<noteq> CHR 0x0A"
    using L by (auto dest: in_set_dropD)
  have "takeWhile (\<lambda>c. c \<noteq> CHR 0x0A) (drop p txt) =
        drop k L @ takeWhile (\<lambda>c. c \<noteq> CHR 0x0A) (CHR 0x0A # Z)"
    unfolding dr using all by (rule takeWhile_append2)
  then have "length (takeWhile (\<lambda>c. c \<noteq> CHR 0x0A) (drop p txt)) = length L - k" by simp
  moreover have "min p (length txt) = p" using p by (simp add: decomp)
  ultimately show ?thesis using k by (simp add: line_stop_def)
qed

lemma line_at:
  assumes decomp: "txt = P @ L @ CHR 0x0A # Z"
    and P: "P \<noteq> []" "last P = CHR 0x0A"
    and L: "CHR 0x0A \<notin> set L"
    and p: "length P \<le> p" "p \<le> length P + length L"
  shows "full_line txt p = Region (length P) (Suc (length P + length L))"
    and "line_text txt p = L"
proof -
  have s: "line_start txt p = length P" using assms by (rule line_start_at)
  have e: "line_stop txt p = length P + length L" using decomp L p by (rule line_stop_at)
  show "full_line txt p = Region (length P) (Suc (length P + length L))"
    by (simp add: full_line_def s e) (simp add: decomp)
  show "line_text txt p = L"
    by (simp add: line_text_def s e) (simp add: decomp)
qed

lemma join_sep_concat:
  "xs \<noteq> [] \<Longrightarrow> join sep xs @ sep = concat (map (\<lambda>x. x @ sep) xs)"
  by (induction sep xs rule: join.induct) simp_all

lemma concat_map_nth:
  assumes "i < length xs"
  shows "concat (map f xs) = concat (map f (take i xs)) @ f (xs ! i) @ concat (map f (drop (Suc i) xs))"
proof -
  have "xs = take i xs @ xs ! i # drop (Suc i) xs" using assms by (rule id_take_nth_drop)
  then have "concat (map f xs) = concat (map f (take i xs @ xs ! i # drop (Suc i) xs))" by simp
  then show ?thesis by simp
qed

lemma last_lines:
  assumes "hd_text \<noteq> []" "last hd_text = CHR 0x0A"
  shows "last (hd_text @ concat (map (\<lambda>x. f x @ ''\<newline>'') xs)) = CHR 0x0A"
proof (cases xs rule: rev_cases)
  case Nil
  with assms show ?thesis by simp
next
  case (snoc ys y)
  then show ?thesis by simp
qed

lemma token_no_newline: "token s \<Longrightarrow> CHR 0x0A \<notin> set s"
proof -
  assume "token s"
  then have "\<forall>c \<in> set s. \<not> is_space c" by (simp add: token_def list_all_iff)
  moreover have "is_space (CHR 0x0A)" by (simp add: is_space_def)
  ultimately show ?thesis by blast
qed

lemma tag_line_no_newline:
  assumes "token (take 7 (sha t))" "token (tag t)"
  shows "CHR 0x0A \<notin> set (tag_line t)"
  using token_no_newline [OF assms(1)] token_no_newline [OF assms(2)]
  by (simp add: tag_line_def)

lemma resolve_in_block:
  assumes decomp: "txt = A @ heading @ concat (map (\<lambda>t. tag_line t @ ''\<newline>'') es) @ B"
    and heading: "heading \<noteq> []" "last heading = CHR 0x0A"
    and reg: "reg = Region (length A)
                (length A + length heading + length (concat (map (\<lambda>t. tag_line t @ ''\<newline>'') es)))"
             "reg \<in> set valid"
    and i: "i < length es"
    and tok: "token (take 7 (sha (es ! i)))" "token (tag (es ! i))"
    and p: "line_offset reg heading es i \<le> p"
           "p \<le> line_offset reg heading es i + length (tag_line (es ! i))"
  shows "line_text txt p = tag_line (es ! i)"
    and "get_lines_from_regions txt [p] valid = [tag_line (es ! i)]"
proof -
  let ?g = "\<lambda>t. tag_line t @ ''\<newline>''"
  let ?X = "concat (map ?g (take i es))"
  let ?L = "tag_line (es ! i)"
  let ?Z = "concat (map ?g (drop (Suc i) es))"
  let ?P = "A @ heading @ ?X"
  have c: "concat (map ?g es) = ?X @ ?g (es ! i) @ ?Z" using i by (rule concat_map_nth)
  have t: "txt = ?P @ ?L @ CHR 0x0A # (?Z @ B)" by (simp add: decomp c)
  have P1: "?P \<noteq> []" using heading(1) by simp
  have "last (heading @ ?X) = CHR 0x0A"
    using last_lines [OF heading, of tag_line "take i es"] by simp
  then have P2: "last ?P = CHR 0x0A" using heading(1) by simp
  have L: "CHR 0x0A \<notin> set ?L" using tok by (rule tag_line_no_newline)
  have off: "line_offset reg heading es i = length ?P"
    by (simp add: line_offset_def reg(1))
  have p1: "length ?P \<le> p" using p(1) off by simp
  have p2: "p \<le> length ?P + length ?L" using p(2) off by simp
  note la = line_at [OF t P1 P2 L p1 p2]
  show "line_text txt p = ?L" by (rule la(2))
  have "region_within reg (full_line txt p)"
    unfolding la(1) by (simp add: region_within_def reg(1) c)
  then have "list_ex (\<lambda>outer. region_within outer (full_line txt p)) valid"
    using reg(2) by (auto simp: list_ex_iff)
  then show "get_lines_from_regions txt [p] valid = [?L]"
    by (simp add: get_lines_from_regions_def la(2))
qed

lemma parse_tag_line:
  assumes "token (take 7 (sha t))" "token (tag t)"
  shows "parse_lines [tag_line t] = [[take 7 (sha t), tag t]]"
proof -
  have "drop 4 (tag_line t) = take 7 (sha t) @ '' '' @ tag t" by (simp add: tag_line_def)
  moreover have "tag_line t \<noteq> []" by (simp add: tag_line_def)
  ultimately show ?thesis
    using parse_two_tokens [OF assms] by (simp add: parse_lines_def)
qed

lemma block_text:
  assumes "es \<noteq> []"
  shows "heading @ join ''\<newline>'' (map tag_line es) @ ''\<newline>'' =
         heading @ concat (map (\<lambda>t. tag_line t @ ''\<newline>'') es)"
proof -
  have "map tag_line es \<noteq> []" using assms by simp
  from join_sep_concat [OF this, of "''\<newline>''"]
  have "join ''\<newline>'' (map tag_line es) @ ''\<newline>'' =
        concat (map (\<lambda>t. tag_line t @ ''\<newline>'') es)"
    by (simp add: comp_def)
  then show ?thesis by simp
qed

lemma local_text_block:
  "local \<noteq> [] \<Longrightarrow>
   local_text_of local = local_heading @ concat (map (\<lambda>t. tag_line t @ ''\<newline>'') local)"
  using block_text [of local local_heading]
  by (simp add: local_text_of_def LOCAL_TEMPLATE_def local_heading_def)

lemma remote_text_block:
  "entries g \<noteq> [] \<Longrightarrow>
   remote_text_of g = remote_heading g @ concat (map (\<lambda>t. tag_line t @ ''\<newline>'') (entries g))"
  using block_text [of "entries g" "remote_heading g"]
  by (simp add: remote_text_of_def REMOTE_TEMPLATE_def remote_heading_def)

lemma remote_part_snoc:
  "groups \<noteq> [] \<Longrightarrow>
   remote_part groups = remote_part (butlast groups) @ remote_text_of (last groups)"
proof -
  assume "groups \<noteq> []"
  then have "groups = butlast groups @ [last groups]" by simp
  then have "remote_part groups = remote_part (butlast groups @ [last groups])" by simp
  then show ?thesis by (simp add: remote_part_def)
qed

lemma heading_facts:
  "local_heading \<noteq> []" "last local_heading = CHR 0x0A"
  "remote_heading g \<noteq> []" "last (remote_heading g) = CHR 0x0A"
  by (simp_all add: local_heading_def remote_heading_def)

text \<open>
  Claim C2, as the code has it. Take a view that shows a full render with the ranges of
  that render stored, and an entry of a block whose range is recorded: the local block,
  or the block of the last remote. When the first seven characters of the entry's hash
  and the entry's name are tokens (not empty, no whitespace), every offset inside the
  entry's line lies in that line, and resolving it yields the one reference whose short
  hash is the first seven characters of the hash and whose name is the entry's name.
\<close>

theorem recorded_block_round_trip:
  assumes s: "sort_tag_entries (tags r) = (local, groups)"
    and vt: "view_text w vid = fst (get_contents r)"
    and vr: "view_section_ranges w vid = Some (snd (get_contents r))"
    and blk: "(es = local \<and> reg = snd (get_contents r) ! 0 \<and> heading = local_heading)
            \<or> (groups \<noteq> [] \<and> es = entries (last groups) \<and> reg = snd (get_contents r) ! 1
                \<and> heading = remote_heading (last groups))"
    and i: "i < length es"
    and tok: "token (take 7 (sha (es ! i)))" "token (tag (es ! i))"
    and p: "line_offset reg heading es i \<le> p"
           "p \<le> line_offset reg heading es i + length (tag_line (es ! i))"
  shows "line_text (view_text w vid) p = tag_line (es ! i)
       \<and> selected_items vid [p] w = Inr [[take 7 (sha (es ! i)), tag (es ! i)]]"
proof -
  let ?g = "\<lambda>t. tag_line t @ ''\<newline>''"
  let ?txt = "fst (get_contents r)"
  let ?valid = "take 3 (snd (get_contents r))"
  note eq = get_contents_eq [OF s]
  have es: "es \<noteq> []" using i by auto
  have valid: "?valid = snd (get_contents r)" by (simp add: eq)
  have "\<exists>A B. ?txt = A @ heading @ concat (map ?g es) @ B
          \<and> reg = Region (length A) (length A + length heading + length (concat (map ?g es)))
          \<and> reg \<in> set ?valid \<and> heading \<noteq> [] \<and> last heading = CHR 0x0A"
    using blk
  proof
    assume a: "es = local \<and> reg = snd (get_contents r) ! 0 \<and> heading = local_heading"
    then have l: "local \<noteq> []" using es by simp
    have lp: "local_part local = heading @ concat (map ?g es)"
      using a l by (simp add: local_part_def local_text_block)
    have ne: "local_part local @ remote_part groups \<noteq> []"
      using lp a heading_facts(1) by simp
    have "?txt = header_of r @ (local_part local @ remote_part groups) @ KEY_BINDINGS_MENU"
      using ne by (auto simp: eq)
    then have 1: "?txt = header_of r @ heading @ concat (map ?g es) @ (remote_part groups @ KEY_BINDINGS_MENU)"
      by (simp add: lp)
    have 2: "reg = Region (length (header_of r))
        (length (header_of r) + length heading + length (concat (map ?g es)))"
      using a l by (simp add: eq lp)
    have 3: "reg \<in> set ?valid" using a by (simp add: eq)
    show ?thesis
      using 1 2 3 a heading_facts(1,2) by blast
  next
    assume a: "groups \<noteq> [] \<and> es = entries (last groups) \<and> reg = snd (get_contents r) ! 1
                \<and> heading = remote_heading (last groups)"
    then have g: "groups \<noteq> []" by simp
    have rt: "remote_text_of (last groups) = heading @ concat (map ?g es)"
      using a es by (simp add: remote_text_block)
    have rp: "remote_part groups = remote_part (butlast groups) @ heading @ concat (map ?g es)"
      using remote_part_snoc [OF g] rt by simp
    have ne: "local_part local @ remote_part groups \<noteq> []"
      using rp a heading_facts(3) by simp
    let ?A = "header_of r @ local_part local @ remote_part (butlast groups)"
    have "?txt = header_of r @ (local_part local @ remote_part groups) @ KEY_BINDINGS_MENU"
      using ne by (auto simp: eq)
    then have 1: "?txt = ?A @ heading @ concat (map ?g es) @ KEY_BINDINGS_MENU"
      by (simp add: rp)
    have 2: "reg = Region (length ?A) (length ?A + length heading + length (concat (map ?g es)))"
      using a g by (simp add: eq rp)
    have 3: "reg \<in> set ?valid" using a by (simp add: eq)
    show ?thesis
      using 1 2 3 a heading_facts(3,4) by blast
  qed
  then obtain A B where d: "?txt = A @ heading @ concat (map ?g es) @ B"
    and rg: "reg = Region (length A) (length A + length heading + length (concat (map ?g es)))"
    and mem: "reg \<in> set ?valid" and h1: "heading \<noteq> []" and h2: "last heading = CHR 0x0A"
    by blast
  note rb = resolve_in_block [OF d h1 h2 rg mem i tok p]
  have "selected_items vid [p] w = Inr (parse_lines [tag_line (es ! i)])"
    using rb(2) by (simp add: selected_items_def vr vt)
  then show ?thesis
    using rb(1) parse_tag_line [OF tok] by (simp add: vt)
qed

theorem recorded_block_round_trip_witness:
  "selected_items 1 [70] ex_world = Inr [[''1234567'', ''v1.1'']]
   \<and> selected_items 1 [160] ex_world = Inr [[''1234567'', ''v1.1'']]"
proof -
  let ?local = "[\<lparr>sha = ''abcdef1234567'', tag = ''v1.0''\<rparr>,
                 \<lparr>sha = ''1234567890abc'', tag = ''v1.1''\<rparr>,
                 \<lparr>sha = ''fedcba9876543'', tag = ''v2.0''\<rparr>]"
  let ?origin = "\<lparr>remote = ''origin'', entries = [\<lparr>sha = ''abcdef1234567'', tag = ''v1.0''\<rparr>]\<rparr>"
  let ?fork = "\<lparr>remote = ''fork'', entries = [\<lparr>sha = ''1234567890abc'', tag = ''v1.1''\<rparr>]\<rparr>"
  let ?r0 = "snd (get_contents ex_repo) ! 0"
  let ?r1 = "snd (get_contents ex_repo) ! 1"
  have s: "sort_tag_entries (tags ex_repo) = (?local, [?origin, ?fork])"
    by (simp add: ex_repo_def sort_tag_entries_def)
  have vt: "view_text ex_world 1 = fst (get_contents ex_repo)"
    by (simp add: ex_world_def append_tags_def replace_view_text_def emit_def split: prod.splits)
  have vr: "view_section_ranges ex_world 1 = Some (snd (get_contents ex_repo))"
    by (simp add: ex_world_def append_tags_def replace_view_text_def emit_def split: prod.splits)
  have b0: "(?local = ?local \<and> ?r0 = ?r0 \<and> local_heading = local_heading)
      \<or> ([?origin, ?fork] \<noteq> [] \<and> ?local = entries (last [?origin, ?fork]) \<and> ?r0 = ?r1
          \<and> local_heading = remote_heading (last [?origin, ?fork]))"
    by simp
  have b1: "(entries ?fork = ?local \<and> ?r1 = ?r0 \<and> remote_heading ?fork = local_heading)
      \<or> ([?origin, ?fork] \<noteq> [] \<and> entries ?fork = entries (last [?origin, ?fork]) \<and> ?r1 = ?r1
          \<and> remote_heading ?fork = remote_heading (last [?origin, ?fork]))"
    by simp
  have i0: "1 < length ?local" by simp
  have i1: "0 < length (entries ?fork)" by simp
  have t0: "token (take 7 (sha (?local ! 1)))" "token (tag (?local ! 1))" by code_simp+
  have t1: "token (take 7 (sha (entries ?fork ! 0)))" "token (tag (entries ?fork ! 0))"
    by code_simp+
  have p0: "line_offset ?r0 local_heading ?local 1 \<le> 70"
    "70 \<le> line_offset ?r0 local_heading ?local 1 + length (tag_line (?local ! 1))"
    by code_simp+
  have p1: "line_offset ?r1 (remote_heading ?fork) (entries ?fork) 0 \<le> 160"
    "160 \<le> line_offset ?r1 (remote_heading ?fork) (entries ?fork) 0
            + length (tag_line (entries ?fork ! 0))"
    by code_simp+
  show ?thesis
    using recorded_block_round_trip [OF s vt vr b0 i0 t0 p0]
      recorded_block_round_trip [OF s vt vr b1 i1 t1 p1]
    by simp
qed

text \<open>
  The claim as stated fails for an entry whose name is not a single token: the line of
  the tag \<open>release candidate\<close> resolves to three tokens, and the name the commands use
  (the second token) is \<open>release\<close>.
\<close>

theorem name_with_space_is_cut:
  "line_text (view_text ex_spaced_world 1) 55 =
     tag_line \<lparr>sha = ''0123456789abc'', tag = ''release candidate''\<rparr>
   \<and> selected_items 1 [55] ex_spaced_world = Inr [[''0123456'', ''release'', ''candidate'']]
   \<and> selected_items 1 [55] ex_spaced_world \<noteq> Inr [[''0123456'', ''release candidate'']]
   \<and> git_calls (events (snd (delete_run always_ok 1 [55] ex_spaced_world))) =
       [[''tag'', ''-d'', ''release'']]"
  by code_simp

end
